theory Spec2Isabelle
  imports Complex_Main "HOL-Library.Word"
begin

unbundle bit_operations_syntax

section \<open>Config.py\<close>

type_synonym byte = "8 word"

definition RESPONSE_LENGTH :: nat where
  "RESPONSE_LENGTH = 19"

definition MODBUS_COMMAND :: "byte list" where
  "MODBUS_COMMAND = [0x01, 0x03, 0x00, 0x00, 0x00, 0x07, 0x04, 0x08]"

definition ASSIGNMENT_CHECK_INTERVAL :: real where
  "ASSIGNMENT_CHECK_INTERVAL = 14400"

definition MAX_RETRY_ATTEMPTS :: nat where
  "MAX_RETRY_ATTEMPTS = 3"

definition MAX_OFFLINE_RECORDS :: nat where
  "MAX_OFFLINE_RECORDS = 1000"

section \<open>Python values shared by the modules\<close>

text \<open>
  The outcome of one \<^verbatim>\<open>requests\<close> call: a response with its status code and body, or
  one of the exceptions the callers distinguish (all of them are
  \<^verbatim>\<open>RequestException\<close>s). The body is \<open>None\<close> when \<^verbatim>\<open>response.json()\<close> would raise.
\<close>

datatype 'b http_result =
    Response int "'b option"
  | ConnectionError
  | Timeout
  | RequestFailed

datatype json_value = JNum int | JStr string

text \<open>Python slices \<^verbatim>\<open>xs[i:j]\<close>, \<^verbatim>\<open>xs[-k:]\<close> and \<^verbatim>\<open>xs[:-k]\<close> (they never raise).\<close>

definition slice_between :: "nat \<Rightarrow> nat \<Rightarrow> 'a list \<Rightarrow> 'a list" where
  "slice_between i j xs = take (j - i) (drop i xs)"

definition slice_last :: "nat \<Rightarrow> 'a list \<Rightarrow> 'a list" where
  "slice_last k xs = drop (length xs - k) xs"

definition slice_but_last :: "nat \<Rightarrow> 'a list \<Rightarrow> 'a list" where
  "slice_but_last k xs = take (length xs - k) xs"

text \<open>\<^verbatim>\<open>int.from_bytes(bs, 'big')\<close>.\<close>

definition from_bytes_big :: "byte list \<Rightarrow> int" where
  "from_bytes_big bs = foldl (\<lambda>acc b. acc * 256 + uint b) 0 bs"

text \<open>
  \<^verbatim>\<open>n.to_bytes(2, byteorder='little')\<close>: \<open>None\<close> stands for the OverflowError that
  Python raises when \<open>n\<close> does not fit two unsigned bytes.
\<close>

definition to_bytes_2_little :: "int \<Rightarrow> byte list option" where
  "to_bytes_2_little n =
     (if 0 \<le> n \<and> n < 65536
      then Some [word_of_int (n mod 256), word_of_int (n div 256)]
      else None)"

section \<open>SensorReader.py: the checksum\<close>

text \<open>
  \<^verbatim>\<open>_crc16_modbus\<close> works on Python's unbounded integers. \<open>crc_shift\<close> is the body of
  the inner loop, \<open>crc_byte\<close> the body of the outer loop.
\<close>

definition crc_shift :: "int \<Rightarrow> int" where
  "crc_shift crc =
     (if crc AND 0x0001 \<noteq> 0 then drop_bit 1 crc XOR 0xA001 else drop_bit 1 crc)"

definition crc_byte :: "int \<Rightarrow> byte \<Rightarrow> int" where
  "crc_byte crc b = fold (\<lambda>_. crc_shift) [0..<8] (crc XOR uint b)"

definition crc16_modbus :: "byte list \<Rightarrow> byte list option" where
  "crc16_modbus data = to_bytes_2_little (fold (\<lambda>b crc. crc_byte crc b) data 0xFFFF)"

text \<open>
  CRC-16/MODBUS as the specification words it, on 16-bit registers: initial value
  0xFFFF; each byte is XORed into the register, which is then shifted right eight
  times, the polynomial 0xA001 being XORed in whenever the bit shifted out was set; the
  register is emitted low byte first.
\<close>

definition crc16_step :: "16 word \<Rightarrow> 16 word" where
  "crc16_step w = (if bit w 0 then drop_bit 1 w XOR 0xA001 else drop_bit 1 w)"

definition crc16_spec :: "byte list \<Rightarrow> 16 word" where
  "crc16_spec data = fold (\<lambda>b w. (crc16_step ^^ 8) (w XOR ucast b)) data 0xFFFF"

definition le_bytes16 :: "16 word \<Rightarrow> byte list" where
  "le_bytes16 w = [ucast w, ucast (drop_bit 8 w)]"

section \<open>SensorReader.py: the device state\<close>

text \<open>
  \<^verbatim>\<open>serial_conn\<close> is \<open>None\<close> or a \<^verbatim>\<open>serial.Serial\<close> object, which is open or not.
\<close>

datatype conn = Conn (is_open: bool)

record sensor_reader =
  machine_id :: string
  serial_conn :: "conn option"
  is_assigned :: bool
  assigned_farm_id :: "json_value option"
  assigned_zone_code :: "json_value option"
  last_assignment_check :: real

text \<open>
  The JSON object of an assignment reply. \<open>assigned\<close> is \<open>None\<close> when the key is
  missing; \<open>reply_farm_id\<close> and \<open>reply_zone_code\<close> are what \<^verbatim>\<open>data.get\<close> returns.
\<close>

record assignment_reply =
  assigned :: "bool option"
  reply_farm_id :: "json_value option"
  reply_zone_code :: "json_value option"

definition handle_assignment_response :: "sensor_reader \<Rightarrow> assignment_reply \<Rightarrow> sensor_reader" where
  "handle_assignment_response s data =
     (case assigned data of
        None \<Rightarrow> s
      | Some a \<Rightarrow>
          if a
          then s\<lparr>is_assigned := a,
                 assigned_farm_id := reply_farm_id data,
                 assigned_zone_code := reply_zone_code data\<rparr>
          else s\<lparr>is_assigned := a,
                 assigned_farm_id := None,
                 assigned_zone_code := None\<rparr>)"

text \<open>
  The fallback query to the DB Pi (the second \<^verbatim>\<open>try\<close> of
  \<^verbatim>\<open>check_assignment_status\<close>). A body that is not JSON raises inside the \<^verbatim>\<open>try\<close> and
  is caught by \<^verbatim>\<open>except Exception\<close>.
\<close>

definition check_assignment_db ::
  "sensor_reader \<Rightarrow> real \<Rightarrow> assignment_reply http_result \<Rightarrow> bool \<times> sensor_reader" where
  "check_assignment_db s current_time db =
     (case db of
        Response code body \<Rightarrow>
          if code = 200 then
            (case body of
               Some data \<Rightarrow>
                 (let s' = (handle_assignment_response s data)\<lparr>last_assignment_check := current_time\<rparr>
                  in (is_assigned s', s'))
             | None \<Rightarrow> (is_assigned s, s))
          else if code = 404 then
            (False, s\<lparr>is_assigned := False, last_assignment_check := current_time\<rparr>)
          else (is_assigned s, s)
      | ConnectionError \<Rightarrow> (is_assigned s, s)
      | Timeout \<Rightarrow> (is_assigned s, s)
      | RequestFailed \<Rightarrow> (is_assigned s, s))"

text \<open>
  \<^verbatim>\<open>check_assignment_status(force)\<close> at clock reading \<open>current_time\<close>; \<open>gw\<close> and \<open>db\<close> are
  what the Gateway Pi and the DB Pi answer if they are asked. A gateway body that is
  not JSON raises a \<^verbatim>\<open>RequestException\<close>, which the first \<^verbatim>\<open>try\<close> catches.
\<close>

definition check_assignment_status ::
  "sensor_reader \<Rightarrow> bool \<Rightarrow> real \<Rightarrow> assignment_reply http_result
     \<Rightarrow> assignment_reply http_result \<Rightarrow> bool \<times> sensor_reader" where
  "check_assignment_status s force current_time gw db =
     (if \<not> force \<and> current_time - last_assignment_check s < ASSIGNMENT_CHECK_INTERVAL
      then (is_assigned s, s)
      else
        (case gw of
           Response code body \<Rightarrow>
             if code = 200 then
               (case body of
                  Some data \<Rightarrow>
                    (let s' = (handle_assignment_response s data)\<lparr>last_assignment_check := current_time\<rparr>
                     in (is_assigned s', s'))
                | None \<Rightarrow> check_assignment_db s current_time db)
             else check_assignment_db s current_time db
         | ConnectionError \<Rightarrow> check_assignment_db s current_time db
         | Timeout \<Rightarrow> check_assignment_db s current_time db
         | RequestFailed \<Rightarrow> check_assignment_db s current_time db))"

section \<open>SensorReader.py: the serial link\<close>

text \<open>
  The serial line as the reader sees it. \<open>opens\<close> is what the attempt with a given
  number to construct \<^verbatim>\<open>serial.Serial\<close> does; \<open>write_ok\<close> tells whether a write
  succeeds; \<open>arrivals\<close> lists what each successive read finds before its timeout
  (\<open>None\<close>: the read raises \<^verbatim>\<open>SerialException\<close>; no entry left: nothing arrives).
\<close>

datatype open_outcome = Opened | NotOpen | OpenFailed

record serial_line =
  opens :: "nat \<Rightarrow> open_outcome"
  write_ok :: bool
  arrivals :: "byte list option list"

fun initialize_serial_from ::
  "(nat \<Rightarrow> open_outcome) \<Rightarrow> conn option \<Rightarrow> nat list \<Rightarrow> bool \<times> conn option" where
  "initialize_serial_from outcome sc [] = (False, sc)"
| "initialize_serial_from outcome sc (attempt # rest) =
     (case outcome attempt of
        Opened \<Rightarrow> (True, Some (Conn True))
      | NotOpen \<Rightarrow> initialize_serial_from outcome (Some (Conn False)) rest
      | OpenFailed \<Rightarrow>
          if attempt < MAX_RETRY_ATTEMPTS - 1
          then initialize_serial_from outcome sc rest
          else (False, None))"

definition initialize_serial :: "sensor_reader \<Rightarrow> serial_line \<Rightarrow> bool \<times> sensor_reader" where
  "initialize_serial s line =
     (let (ok, sc) = initialize_serial_from (opens line) (serial_conn s) [0..<MAX_RETRY_ATTEMPTS]
      in (ok, s\<lparr>serial_conn := sc\<rparr>))"

text \<open>\<^verbatim>\<open>serial_conn.write\<close> and \<^verbatim>\<open>serial_conn.read(n)\<close>; \<open>None\<close> is a \<^verbatim>\<open>SerialException\<close>.\<close>

definition serial_write :: "conn \<Rightarrow> serial_line \<Rightarrow> serial_line option" where
  "serial_write c line = (if is_open c \<and> write_ok line then Some line else None)"

definition serial_read :: "serial_line \<Rightarrow> nat \<Rightarrow> (byte list \<times> serial_line) option" where
  "serial_read line n =
     (case arrivals line of
        [] \<Rightarrow> Some ([], line)
      | None # rest \<Rightarrow> None
      | Some chunk # rest \<Rightarrow>
          Some (take n chunk,
                line\<lparr>arrivals := (if length chunk \<le> n then rest else Some (drop n chunk) # rest)\<rparr>))"

section \<open>SensorReader.py: one exchange with the sensor\<close>

datatype read_error = SerialException | LengthMismatch | ChecksumMismatch | ChecksumOverflow

text \<open>
  The length check of \<^verbatim>\<open>read_sensor_data\<close> with its supplementary read, applied to the
  bytes \<open>response\<close> of the first read.
\<close>

definition complete_response :: "byte list \<Rightarrow> serial_line \<Rightarrow> read_error + byte list" where
  "complete_response response line =
     (if length response \<noteq> RESPONSE_LENGTH then
        (if length response < RESPONSE_LENGTH then
           (case serial_read line (RESPONSE_LENGTH - length response) of
              None \<Rightarrow> Inl SerialException
            | Some (additional, line') \<Rightarrow>
                (let response' = response @ additional
                 in if length response' \<noteq> RESPONSE_LENGTH then Inl LengthMismatch
                    else Inr response'))
         else Inl LengthMismatch)
      else Inr response)"

text \<open>The CRC check of \<^verbatim>\<open>read_sensor_data\<close>.\<close>

definition crc_check :: "byte list \<Rightarrow> read_error + byte list" where
  "crc_check response =
     (let expected_crc = slice_last 2 response;
          data_to_check = slice_but_last 2 response
      in case crc16_modbus data_to_check of
           None \<Rightarrow> Inl ChecksumOverflow
         | Some calculated_crc \<Rightarrow>
             if expected_crc \<noteq> calculated_crc then Inl ChecksumMismatch else Inr response)"

text \<open>The write, the reads and the two checks: the body of the \<^verbatim>\<open>try\<close> up to the parse.\<close>

definition exchange :: "conn \<Rightarrow> serial_line \<Rightarrow> read_error + byte list" where
  "exchange c line =
     (case serial_write c line of
        None \<Rightarrow> Inl SerialException
      | Some line1 \<Rightarrow>
          (case serial_read line1 RESPONSE_LENGTH of
             None \<Rightarrow> Inl SerialException
           | Some (response, line2) \<Rightarrow>
               (case complete_response response line2 of
                  Inl e \<Rightarrow> Inl e
                | Inr response' \<Rightarrow> crc_check response')))"

text \<open>
  The dictionary \<^verbatim>\<open>sensor_data\<close>. Python's true division of an integer below 65536 by
  10 is taken as the exact quotient (the float is the double nearest to it).
\<close>

record reading =
  rd_machine_id :: string
  timestamp :: string
  farm_id :: "json_value option"
  zone_code :: "json_value option"
  moisture :: real
  temperature :: real
  conductivity :: real
  ph :: real
  nitrogen :: real
  phosphorus :: real
  potassium :: real
  crc_valid :: bool
  response_bytes :: nat

definition parse_sensor_data :: "sensor_reader \<Rightarrow> string \<Rightarrow> byte list \<Rightarrow> reading" where
  "parse_sensor_data s now response =
     \<lparr>rd_machine_id = machine_id s,
      timestamp = now,
      farm_id = assigned_farm_id s,
      zone_code = assigned_zone_code s,
      moisture = of_int (from_bytes_big (slice_between 3 5 response)) / 10,
      temperature = of_int (from_bytes_big (slice_between 5 7 response)) / 10,
      conductivity = of_int (from_bytes_big (slice_between 7 9 response)) / 10,
      ph = of_int (from_bytes_big (slice_between 9 11 response)) / 10,
      nitrogen = of_int (from_bytes_big (slice_between 11 13 response)) / 10,
      phosphorus = of_int (from_bytes_big (slice_between 13 15 response)) / 10,
      potassium = of_int (from_bytes_big (slice_between 15 17 response)) / 10,
      crc_valid = True,
      response_bytes = length response\<rparr>"

text \<open>
  The \<^verbatim>\<open>try\<close> statement of \<^verbatim>\<open>read_sensor_data\<close> with its handlers, run on the
  connection \<open>c\<close>; \<open>now\<close> is the formatted \<^verbatim>\<open>datetime.now()\<close> of the parse.
\<close>

definition try_read ::
  "sensor_reader \<Rightarrow> conn \<Rightarrow> serial_line \<Rightarrow> string \<Rightarrow> reading option \<times> sensor_reader" where
  "try_read s c line now =
     (case exchange c line of
        Inl SerialException \<Rightarrow> (None, s\<lparr>serial_conn := None\<rparr>)
      | Inl LengthMismatch \<Rightarrow> (None, s)
      | Inl ChecksumMismatch \<Rightarrow> (None, s)
      | Inl ChecksumOverflow \<Rightarrow> (None, s)
      | Inr response \<Rightarrow> (Some (parse_sensor_data s now response), s))"

text \<open>
  \<^verbatim>\<open>read_sensor_data\<close>. \<open>clock\<close> is the reading of \<^verbatim>\<open>time.time()\<close> in the assignment
  check; \<open>gw\<close> and \<open>db\<close> are the assignment answers of the two servers.
\<close>

definition read_sensor_data ::
  "sensor_reader \<Rightarrow> real \<Rightarrow> assignment_reply http_result \<Rightarrow> assignment_reply http_result
     \<Rightarrow> serial_line \<Rightarrow> string \<Rightarrow> reading option \<times> sensor_reader" where
  "read_sensor_data s clock gw db line now =
     (let (assigned_now, s1) = check_assignment_status s False clock gw db in
      if \<not> assigned_now then (None, s1)
      else
        (let (connected, s2) =
               (if serial_conn s1 = None then initialize_serial s1 line else (True, s1))
         in if \<not> connected then (None, s2)
            else
              (case serial_conn s2 of
                 None \<Rightarrow> (None, s2)
               | Some c \<Rightarrow> try_read s2 c line now)))"

section \<open>The world outside the process\<close>

text \<open>
  What one round of connectivity probes finds: the answer of each URL that
  \<^verbatim>\<open>check_internet\<close> tries, of the DB Pi's health URL and of the Gateway Pi's test URL.
\<close>

record probe_answers =
  url_answer :: "string \<Rightarrow> unit http_result"
  db_health :: "unit http_result"
  gateway_test :: "unit http_result"

text \<open>
  The dictionaries handed to \<^verbatim>\<open>send_to_gateway\<close>. \<open>Fresh r\<close> is the dictionary \<open>r\<close> that
  \<^verbatim>\<open>read_sensor_data\<close> has just built. \<open>Reread r\<close> is \<^verbatim>\<open>record.to_dict()\<close> of the row that
  pandas parses from the CSV line written for \<open>r\<close>: it is not \<open>r\<close> itself, since pandas
  reads a missing value (\<open>None\<close>, written as an empty cell) and every string of its
  table of missing-value markers back as the float NaN, a string of digits as a number,
  and an integer as a float when its column holds a NaN. Only the NaN cells bear on
  what the program does with a row, so a reread row is kept by the reading it comes
  from, and \<open>row_has_nan\<close> tells whether it holds a NaN. A cell is taken for NaN by
  pandas' table of markers alone; the types pandas infers for whole columns are not
  followed.
\<close>

datatype payload = Fresh reading | Reread reading

definition NA_VALUES :: "string list" where
  "NA_VALUES =
     ['''', ''#N/A'', ''#N/A N/A'', ''#NA'', ''-1.#IND'', ''-1.#QNAN'', ''-NaN'', ''-nan'',
      ''1.#IND'', ''1.#QNAN'', ''<NA>'', ''N/A'', ''NA'', ''NULL'', ''NaN'', ''None'', ''n/a'',
      ''nan'', ''null'']"

definition reads_as_nan :: "string \<Rightarrow> bool" where
  "reads_as_nan s \<longleftrightarrow> s \<in> set NA_VALUES"

definition cell_is_nan :: "json_value option \<Rightarrow> bool" where
  "cell_is_nan v =
     (case v of
        None \<Rightarrow> True
      | Some (JNum n) \<Rightarrow> False
      | Some (JStr s) \<Rightarrow> reads_as_nan s)"

definition row_has_nan :: "reading \<Rightarrow> bool" where
  "row_has_nan r \<longleftrightarrow>
     reads_as_nan (rd_machine_id r) \<or> reads_as_nan (timestamp r)
     \<or> cell_is_nan (farm_id r) \<or> cell_is_nan (zone_code r)"

text \<open>\<^verbatim>\<open>record.to_dict()\<close> for a row of the DataFrame read from the offline file.\<close>

definition to_dict :: "reading \<Rightarrow> payload" where
  "to_dict record = Reread record"

text \<open>
  \<^verbatim>\<open>requests.post(json=data)\<close> serialises \<open>data\<close> before it sends anything and raises
  \<^verbatim>\<open>InvalidJSONError\<close> on a NaN. A fresh reading holds none: its measurements are finite
  and its assignment values are \<open>None\<close>, integers or strings.
\<close>

definition json_serialisable :: "payload \<Rightarrow> bool" where
  "json_serialisable data = (case data of Fresh r \<Rightarrow> True | Reread r \<Rightarrow> \<not> row_has_nan r)"

text \<open>The parsed body of an answer: a JSON object (a Python dict) or another JSON value.\<close>

datatype json_body = JsonObject | JsonOther

text \<open>
  The offline CSV file is absent (\<open>None\<close>) or holds its rows, oldest first; a row is
  kept by the reading it was written for. The world counts the probe rounds made so far
  and knows what the next one finds; it records every dictionary POSTed to the Gateway
  Pi, in order, and knows the answer to each POST.
\<close>

type_synonym 'a storage = "'a list option"

record world =
  probes_done :: nat
  probe :: "nat \<Rightarrow> probe_answers"
  posted :: "payload list"
  post_answer :: "nat \<Rightarrow> json_body http_result"
  offline_file :: "reading storage"

section \<open>OfflineLogger.py\<close>

record offline_logger =
  max_records :: nat

definition OfflineLogger_init :: offline_logger where
  "OfflineLogger_init = \<lparr>max_records = MAX_OFFLINE_RECORDS\<rparr>"

text \<open>
  pandas: \<^verbatim>\<open>df.tail(n)\<close> for \<open>n \<ge> 0\<close>; \<^verbatim>\<open>df.head(n)\<close> and \<^verbatim>\<open>df.iloc[n:]\<close> for any
  integer (a negative \<open>n\<close> counts from the end).
\<close>

definition df_tail :: "nat \<Rightarrow> 'a list \<Rightarrow> 'a list" where
  "df_tail n df = drop (length df - n) df"

definition df_head :: "int \<Rightarrow> 'a list \<Rightarrow> 'a list" where
  "df_head n df = (if 0 \<le> n then take (nat n) df else take (length df - nat (- n)) df)"

definition df_iloc_from :: "int \<Rightarrow> 'a list \<Rightarrow> 'a list" where
  "df_iloc_from n df = (if 0 \<le> n then drop (nat n) df else drop (length df - nat (- n)) df)"

definition offline_save :: "offline_logger \<Rightarrow> 'a storage \<Rightarrow> 'a \<Rightarrow> bool \<times> 'a storage" where
  "offline_save l file data =
     (let df_new = [data];
          df_combined =
            (case file of
               Some df_existing \<Rightarrow>
                 (let df_combined = df_existing @ df_new
                  in if length df_combined > max_records l
                     then df_tail (max_records l) df_combined
                     else df_combined)
             | None \<Rightarrow> df_new)
      in (True, Some df_combined))"

definition load_all :: "'a storage \<Rightarrow> 'a list" where
  "load_all file = (case file of Some df \<Rightarrow> df | None \<Rightarrow> [])"

definition load_batch :: "'a storage \<Rightarrow> int \<Rightarrow> 'a list \<times> 'a storage" where
  "load_batch file batch_size =
     (case file of
        Some df \<Rightarrow> if length df > 0 then (df_head batch_size df, file) else ([], file)
      | None \<Rightarrow> ([], file))"

definition remove_synced :: "'a storage \<Rightarrow> int \<Rightarrow> bool \<times> 'a storage" where
  "remove_synced file count =
     (case file of
        None \<Rightarrow> (True, file)
      | Some df \<Rightarrow>
          if count \<ge> int (length df) then (True, None)
          else (True, Some (df_iloc_from count df)))"

definition total_records :: "'a storage \<Rightarrow> nat" where
  "total_records file = (case file of Some df \<Rightarrow> length df | None \<Rightarrow> 0)"

section \<open>GatewayLogger.py\<close>

text \<open>
  How \<^verbatim>\<open>send_to_gateway\<close> reads the answer to its POST. On status 200 it calls
  \<^verbatim>\<open>response.json()\<close> and \<^verbatim>\<open>response_data.get\<close>: a body that is not JSON, or is not a
  JSON object, raises, and \<^verbatim>\<open>except Exception\<close> returns False.
\<close>

definition gateway_verdict :: "json_body http_result \<Rightarrow> bool" where
  "gateway_verdict r =
     (case r of
        Response code body \<Rightarrow>
          if code = 200 then
            (case body of
               Some JsonObject \<Rightarrow> True
             | Some JsonOther \<Rightarrow> False
             | None \<Rightarrow> False)
          else if code = 202 then True
          else if code = 403 then False
          else if code = 503 then True
          else False
      | ConnectionError \<Rightarrow> False
      | Timeout \<Rightarrow> False
      | RequestFailed \<Rightarrow> False)"

text \<open>
  \<^verbatim>\<open>send_to_gateway\<close>: a dictionary that cannot be serialised makes \<^verbatim>\<open>requests.post\<close>
  raise inside the \<^verbatim>\<open>try\<close> before anything is sent, and the last handler returns False.
\<close>

definition send_to_gateway :: "world \<Rightarrow> payload \<Rightarrow> bool \<times> world" where
  "send_to_gateway w data =
     (if \<not> json_serialisable data then (False, w)
      else
        (let response = post_answer w (length (posted w))
         in (gateway_verdict response, w\<lparr>posted := posted w @ [data]\<rparr>)))"

definition gateway_save :: "world \<Rightarrow> payload \<Rightarrow> bool \<times> world" where
  "gateway_save w data = send_to_gateway w data"

section \<open>NetworkManager.py\<close>

definition INTERNET_TEST_URLS :: "string list" where
  "INTERNET_TEST_URLS =
     [''http://192.168.1.95:5000/api/test'',
      ''http://192.168.1.80:5000/api/test'',
      ''http://www.google.com'']"

record network_manager =
  last_internet_check :: real
  internet_available :: bool
  db_pi_available :: bool
  gateway_pi_available :: bool

record connectivity =
  internet :: bool
  db_pi :: bool
  gateway_pi :: bool

fun check_internet_urls ::
  "network_manager \<Rightarrow> (string \<Rightarrow> unit http_result) \<Rightarrow> string list \<Rightarrow> bool \<times> network_manager" where
  "check_internet_urls nm answer [] = (False, nm\<lparr>internet_available := False\<rparr>)"
| "check_internet_urls nm answer (url # urls) =
     (case answer url of
        Response code body \<Rightarrow>
          if code \<in> {200, 301, 302} then (True, nm\<lparr>internet_available := True\<rparr>)
          else check_internet_urls nm answer urls
      | ConnectionError \<Rightarrow> check_internet_urls nm answer urls
      | Timeout \<Rightarrow> check_internet_urls nm answer urls
      | RequestFailed \<Rightarrow> check_internet_urls nm answer urls)"

definition check_internet :: "network_manager \<Rightarrow> probe_answers \<Rightarrow> bool \<times> network_manager" where
  "check_internet nm a = check_internet_urls nm (url_answer a) INTERNET_TEST_URLS"

definition check_db_pi :: "network_manager \<Rightarrow> probe_answers \<Rightarrow> bool \<times> network_manager" where
  "check_db_pi nm a =
     (case db_health a of
        Response code body \<Rightarrow>
          if code = 200 then (True, nm\<lparr>db_pi_available := True\<rparr>)
          else (False, nm\<lparr>db_pi_available := False\<rparr>)
      | ConnectionError \<Rightarrow> (False, nm\<lparr>db_pi_available := False\<rparr>)
      | Timeout \<Rightarrow> (False, nm\<lparr>db_pi_available := False\<rparr>)
      | RequestFailed \<Rightarrow> (False, nm\<lparr>db_pi_available := False\<rparr>))"

definition check_gateway_pi :: "network_manager \<Rightarrow> probe_answers \<Rightarrow> bool \<times> network_manager" where
  "check_gateway_pi nm a =
     (case gateway_test a of
        Response code body \<Rightarrow>
          if code = 200 then (True, nm\<lparr>gateway_pi_available := True\<rparr>)
          else (False, nm\<lparr>gateway_pi_available := False\<rparr>)
      | ConnectionError \<Rightarrow> (False, nm\<lparr>gateway_pi_available := False\<rparr>)
      | Timeout \<Rightarrow> (False, nm\<lparr>gateway_pi_available := False\<rparr>)
      | RequestFailed \<Rightarrow> (False, nm\<lparr>gateway_pi_available := False\<rparr>))"

definition connectivity_of :: "network_manager \<Rightarrow> connectivity" where
  "connectivity_of nm =
     \<lparr>internet = internet_available nm,
      db_pi = db_pi_available nm,
      gateway_pi = gateway_pi_available nm\<rparr>"

definition check_all_connectivity ::
  "network_manager \<Rightarrow> bool \<Rightarrow> real \<Rightarrow> world \<Rightarrow> connectivity \<times> network_manager \<times> world" where
  "check_all_connectivity nm force current_time w =
     (if \<not> force \<and> current_time - last_internet_check nm < 300
      then (connectivity_of nm, nm, w)
      else
        (let a = probe w (probes_done w);
             w' = w\<lparr>probes_done := probes_done w + 1\<rparr>;
             nm1 = snd (check_internet nm a);
             nm2 = snd (check_db_pi nm1 a);
             nm3 = snd (check_gateway_pi nm2 a);
             nm4 = nm3\<lparr>last_internet_check := current_time\<rparr>
         in (connectivity_of nm4, nm4, w')))"


definition can_reach_gateway_pi :: "network_manager \<Rightarrow> bool" where
  "can_reach_gateway_pi nm = gateway_pi_available nm"

section \<open>MainController.py\<close>

record controller =
  running :: bool
  cycles_completed :: nat
  data_points_collected :: nat
  last_sync_time :: real
  network :: network_manager
  sensor :: sensor_reader
  offline :: offline_logger

text \<open>
  The loop of \<^verbatim>\<open>sync_offline_data\<close> over the rows of the batch: it returns
  \<^verbatim>\<open>successful_syncs\<close> and the world after its POSTs.
\<close>

fun send_records :: "world \<Rightarrow> reading list \<Rightarrow> nat \<times> world" where
  "send_records w [] = (0, w)"
| "send_records w (record # rest) =
     (let data = to_dict record;
          (ok, w1) = send_to_gateway w data
      in if ok
         then (let (successful_syncs, w2) = send_records w1 rest in (successful_syncs + 1, w2))
         else (0, w1))"

definition sync_offline_data :: "controller \<Rightarrow> world \<Rightarrow> real \<Rightarrow> bool \<times> controller \<times> world" where
  "sync_offline_data c w current_time =
     (if \<not> can_reach_gateway_pi (network c) then (False, c, w)
      else if current_time - last_sync_time c < 900 then (True, c, w)
      else
        (let (offline_batch, file1) = load_batch (offline_file w) 20;
             w1 = w\<lparr>offline_file := file1\<rparr>
         in if offline_batch = [] then (True, c, w1)
            else
              (let (successful_syncs, w2) = send_records w1 offline_batch
               in if successful_syncs > 0
                  then
                    (let (removed, file2) = remove_synced (offline_file w2) (int successful_syncs)
                     in (True, c\<lparr>last_sync_time := current_time\<rparr>, w2\<lparr>offline_file := file2\<rparr>))
                  else (False, c, w2))))"

text \<open>
  The last part of \<^verbatim>\<open>collect_and_process_data\<close>: what is done with a collected reading,
  given the connectivity found at the start of the cycle.
\<close>

definition deliver :: "controller \<Rightarrow> world \<Rightarrow> connectivity \<Rightarrow> reading \<Rightarrow> real \<Rightarrow> controller \<times> world" where
  "deliver c w conn sensor_data sync_time =
     (if gateway_pi conn then
        (let (sent, w1) = gateway_save w (Fresh sensor_data)
         in if sent then snd (sync_offline_data c w1 sync_time)
            else
              (let (stored, file) = offline_save (offline c) (offline_file w1) sensor_data
               in (c, w1\<lparr>offline_file := file\<rparr>)))
      else
        (let (stored, file) = offline_save (offline c) (offline_file w) sensor_data
         in (c, w\<lparr>offline_file := file\<rparr>)))"

text \<open>What one cycle reads from its environment: clocks, assignment answers, the serial line.\<close>

record cycle_input =
  connectivity_time :: real
  assignment_time :: real
  gw_assignment :: "assignment_reply http_result"
  db_assignment :: "assignment_reply http_result"
  wire :: serial_line
  reading_time :: string
  sync_time :: real

definition collect_and_process_data :: "controller \<Rightarrow> world \<Rightarrow> cycle_input \<Rightarrow> controller \<times> world" where
  "collect_and_process_data c w i =
     (let (conn, nm, w1) = check_all_connectivity (network c) False (connectivity_time i) w;
          c1 = c\<lparr>network := nm\<rparr>;
          (sensor_data, s) =
            read_sensor_data (sensor c1) (assignment_time i) (gw_assignment i) (db_assignment i)
              (wire i) (reading_time i);
          c2 = c1\<lparr>sensor := s\<rparr>
      in case sensor_data of
           None \<Rightarrow> (c2, w1)
         | Some data \<Rightarrow>
             (let c3 = c2\<lparr>data_points_collected := data_points_collected c2 + 1\<rparr>
              in if \<not> is_assigned (sensor c3) then (c3\<lparr>running := False\<rparr>, w1)
                 else deliver c3 w1 conn data (sync_time i)))"

section \<open>Notions of the specification\<close>

text \<open>A sequence of enqueue operations: \<^verbatim>\<open>save\<close> called on each reading in turn.\<close>

definition save_sequence :: "offline_logger \<Rightarrow> 'a storage \<Rightarrow> 'a list \<Rightarrow> 'a storage" where
  "save_sequence l file ds = fold (\<lambda>d f. snd (offline_save l f d)) ds file"

text \<open>
  The number of entries of a batch confirmed before the first failure, when its rows
  are sent one after the other: each row is paired with the answer its POST gets if all
  rows before it were confirmed, and a row is confirmed when it can be serialised and
  that answer accepts it.
\<close>

definition confirmed_prefix :: "world \<Rightarrow> reading list \<Rightarrow> nat" where
  "confirmed_prefix w batch =
     length (takeWhile
               (\<lambda>(record, answer). json_serialisable (to_dict record) \<and> gateway_verdict answer)
               (zip batch
                  (map (post_answer w)
                     [length (posted w) ..< length (posted w) + length batch])))"

text \<open>
  The frame received in one exchange: the bytes of the first read, followed by those of
  one supplementary read when the first read came short; \<open>None\<close> when the write or a
  read raises.
\<close>

definition received_frame :: "conn \<Rightarrow> serial_line \<Rightarrow> byte list option" where
  "received_frame c line =
     (case serial_write c line of
        None \<Rightarrow> None
      | Some line1 \<Rightarrow>
          (case serial_read line1 RESPONSE_LENGTH of
             None \<Rightarrow> None
           | Some (first, line2) \<Rightarrow>
               if length first < RESPONSE_LENGTH
               then (case serial_read line2 (RESPONSE_LENGTH - length first) of
                       None \<Rightarrow> None
                     | Some (additional, line3) \<Rightarrow> Some (first @ additional))
               else Some first))"

text \<open>A frame of the right length whose last two bytes are the checksum of the others.\<close>

definition valid_frame :: "byte list \<Rightarrow> bool" where
  "valid_frame frame \<longleftrightarrow>
     length frame = RESPONSE_LENGTH
     \<and> crc16_modbus (slice_but_last 2 frame) = Some (slice_last 2 frame)"






section \<open>Sample data\<close>

definition sample_reading :: "string \<Rightarrow> reading" where
  "sample_reading t =
     \<lparr>rd_machine_id = ''42'', timestamp = t, farm_id = None, zone_code = None,
      moisture = 50, temperature = 25, conductivity = 0, ph = 0, nitrogen = 0,
      phosphorus = 0, potassium = 0, crc_valid = True, response_bytes = 19\<rparr>"

definition assigned_reading :: "string \<Rightarrow> reading" where
  "assigned_reading t =
     (sample_reading t)\<lparr>farm_id := Some (JNum 1), zone_code := Some (JStr ''A'')\<rparr>"

definition sample_sensor :: sensor_reader where
  "sample_sensor =
     \<lparr>machine_id = ''42'', serial_conn = Some (Conn True), is_assigned = True,
      assigned_farm_id = Some (JNum 1), assigned_zone_code = Some (JStr ''A''),
      last_assignment_check = 0\<rparr>"

definition sample_frame :: "byte list" where
  "sample_frame =
     [0x01, 0x03, 0x0E, 0x01, 0xF4, 0x00, 0xFA, 0x00, 0x64, 0x00, 0x46, 0x00, 0x0A, 0x00, 0x14,
      0x00, 0x1E, 0x66, 0x71]"

definition sample_line :: serial_line where
  "sample_line =
     \<lparr>opens = (\<lambda>n. Opened), write_ok = True,
      arrivals = [Some (take 10 sample_frame), Some (drop 10 sample_frame)]\<rparr>"

definition sample_controller :: controller where
  "sample_controller =
     \<lparr>running = True, cycles_completed = 0, data_points_collected = 0, last_sync_time = 0,
      network = \<lparr>last_internet_check = 0, internet_available = True,
                 db_pi_available = True, gateway_pi_available = True\<rparr>,
      sensor = sample_sensor,
      offline = OfflineLogger_init\<rparr>"

definition sample_world :: "reading storage \<Rightarrow> (nat \<Rightarrow> json_body http_result) \<Rightarrow> world" where
  "sample_world f answers =
     \<lparr>probes_done = 0,
      probe = (\<lambda>n. \<lparr>url_answer = (\<lambda>u. Response 200 None), db_health = Response 200 None,
                      gateway_test = Response 200 None\<rparr>),
      posted = [],
      post_answer = answers,
      offline_file = f\<rparr>"



definition rejecting_world :: world where
  "rejecting_world = sample_world None (\<lambda>n. Response 403 None)"

definition sample_input :: cycle_input where
  "sample_input =
     \<lparr>connectivity_time = 5, assignment_time = 5, gw_assignment = Timeout,
      db_assignment = Timeout, wire = sample_line, reading_time = ''2024-01-01 00:00:00'',
      sync_time = 1000\<rparr>"

section \<open>The checksum is CRC-16/MODBUS\<close>

lemma crc_shift_uint: "crc_shift (uint w) = uint (crc16_step w)"
proof -
  have low: "uint w AND 1 \<noteq> 0 \<longleftrightarrow> bit w 0"
  proof -
    have "odd (uint w) \<longleftrightarrow> bit w 0"
      using bit_uint_iff [of w 0] by (simp add: bit_0)
    then show ?thesis by (auto simp add: and_one_eq mod2_eq_if)
  qed
  have shifted: "uint (drop_bit 1 w) = drop_bit 1 (uint w)"
    using uint_lt2p [of w] by (simp add: unsigned_drop_bit_eq take_bit_eq_mod)
  show ?thesis
    using shifted by (simp add: crc_shift_def crc16_step_def low uint_xor)
qed

lemma crc_shift_fold:
  "fold (\<lambda>_. crc_shift) xs (uint w) = uint ((crc16_step ^^ length xs) w)"
  by (induction xs arbitrary: w) (simp_all add: crc_shift_uint funpow_swap1)

lemma crc_byte_uint: "crc_byte (uint w) b = uint ((crc16_step ^^ 8) (w XOR ucast b))"
proof -
  have "uint w XOR uint b = uint (w XOR ucast b)"
  proof -
    have "uint b < 65536" using uint_lt2p [of b] by simp
    then show ?thesis by (simp add: uint_xor unsigned_ucast_eq take_bit_eq_mod)
  qed
  then show ?thesis
    unfolding crc_byte_def using crc_shift_fold [of "[0..<8]" "w XOR ucast b"] by simp
qed

lemma crc_fold_uint:
  "fold (\<lambda>b crc. crc_byte crc b) data (uint w)
     = uint (fold (\<lambda>b w. (crc16_step ^^ 8) (w XOR ucast b)) data w)"
  by (induction data arbitrary: w) (simp_all add: crc_byte_uint)

lemma low_byte_uint: "(word_of_int (uint (w :: 16 word) mod 256) :: byte) = ucast w"
  by (rule bit_word_eqI)
    (auto simp add: bit_simps simp flip: take_bit_eq_mod [of 8, simplified])

lemma high_byte_uint:
  "(word_of_int (uint (w :: 16 word) div 256) :: byte) = ucast (drop_bit 8 w)"
  by (rule bit_word_eqI)
    (auto simp add: bit_simps simp flip: drop_bit_eq_div [of 8, simplified])

lemma to_bytes_uint: "to_bytes_2_little (uint (w :: 16 word)) = Some (le_bytes16 w)"
  using uint_lt2p [of w]
  by (simp add: to_bytes_2_little_def le_bytes16_def low_byte_uint high_byte_uint)

lemma crc16_modbus_refines: "crc16_modbus data = Some (le_bytes16 (crc16_spec data))"
  using crc_fold_uint [of data "0xFFFF"]
  by (simp add: crc16_modbus_def crc16_spec_def to_bytes_uint)

lemma crc16_modbus_command:
  "crc16_modbus [0x01, 0x03, 0x00, 0x00, 0x00, 0x07] = Some [0x04, 0x08]"
  by code_simp

text \<open>
  Claim C1. The checksum function computes CRC-16/MODBUS: on every input it never
  overflows its two bytes and returns the little-endian encoding of the 16-bit register
  computed from 0xFFFF with polynomial 0xA001, least significant bit first. For the
  payload 01 03 00 00 00 07 it returns the bytes 04 08, which is the trailer of the
  configured poll command.
\<close>

theorem crc16_modbus_is_crc16:
  "(\<forall>data. crc16_modbus data = Some (le_bytes16 (crc16_spec data)))
   \<and> crc16_modbus [0x01, 0x03, 0x00, 0x00, 0x00, 0x07] = Some [0x04, 0x08]
   \<and> crc16_modbus (slice_but_last 2 MODBUS_COMMAND) = Some (slice_last 2 MODBUS_COMMAND)"
proof (intro conjI allI)
  show "crc16_modbus data = Some (le_bytes16 (crc16_spec data))" for data
    by (rule crc16_modbus_refines)
  show "crc16_modbus [0x01, 0x03, 0x00, 0x00, 0x00, 0x07] = Some [0x04, 0x08]"
    by (rule crc16_modbus_command)
  then show "crc16_modbus (slice_but_last 2 MODBUS_COMMAND) = Some (slice_last 2 MODBUS_COMMAND)"
    by (simp add: MODBUS_COMMAND_def slice_but_last_def slice_last_def)
qed

section \<open>The offline queue\<close>

lemma load_all_offline_save:
  "0 < max_records l \<Longrightarrow>
   load_all (snd (offline_save l file d))
     = drop (length (load_all file) + 1 - max_records l) (load_all file @ [d])"
  by (cases "file") (simp_all add: offline_save_def load_all_def df_tail_def Let_def)

lemma load_all_save_sequence:
  "0 < max_records l \<Longrightarrow> length (load_all file) \<le> max_records l \<Longrightarrow>
   load_all (save_sequence l file ds)
     = drop (length (load_all file @ ds) - max_records l) (load_all file @ ds)"
proof (induction ds arbitrary: "file")
  case Nil
  then show ?case by (simp add: save_sequence_def)
next
  case (Cons d ds)
  let ?f = "snd (offline_save l file d)"
  have rows: "load_all ?f = drop (length (load_all file) + 1 - max_records l) (load_all file @ [d])"
    using Cons.prems(1) by (rule load_all_offline_save)
  then have len: "length (load_all ?f) \<le> max_records l"
    using Cons.prems by simp
  have "load_all (save_sequence l file (d # ds)) = load_all (save_sequence l ?f ds)"
    by (simp add: save_sequence_def)
  also have "\<dots> = drop (length (load_all ?f @ ds) - max_records l) (load_all ?f @ ds)"
    using Cons.IH [OF Cons.prems(1) len] .
  also have "\<dots> = drop (length (load_all file @ d # ds) - max_records l) (load_all file @ d # ds)"
  proof (cases "length (load_all file) < max_records l")
    case True
    then show ?thesis by (simp add: rows)
  next
    case False
    with Cons.prems have full: "length (load_all file) = max_records l" by simp
    with Cons.prems(1) obtain x xs where xs: "load_all file = x # xs"
      by (cases "load_all file") auto
    from full xs have cap: "max_records l = Suc (length xs)" by simp
    show ?thesis by (simp add: rows xs cap)
  qed
  finally show ?case .
qed

lemma load_batch_take:
  "0 \<le> n \<Longrightarrow> load_batch file n = (take (nat n) (load_all file), file)"
  by (cases "file") (simp_all add: load_batch_def load_all_def df_head_def)

lemma total_records_load_all: "total_records f = length (load_all f)"
  by (cases f) (simp_all add: total_records_def load_all_def)

lemma load_all_remove_synced:
  "load_all (snd (remove_synced f (int k))) = drop k (load_all f)"
  by (cases f) (simp_all add: remove_synced_def load_all_def df_iloc_from_def)

lemma confirmed_prefix_Nil: "confirmed_prefix w [] = 0"
  by (simp add: confirmed_prefix_def)

lemma confirmed_prefix_Cons:
  "confirmed_prefix w (record # rest) =
     (if json_serialisable (to_dict record) \<and> gateway_verdict (post_answer w (length (posted w)))
      then Suc (confirmed_prefix (w\<lparr>posted := posted w @ [to_dict record]\<rparr>) rest)
      else 0)"
proof -
  have "[length (posted w) ..< length (posted w) + length (record # rest)]
          = length (posted w) # [Suc (length (posted w)) ..< Suc (length (posted w)) + length rest]"
    by (subst upt_rec) simp
  then show ?thesis
    by (simp add: confirmed_prefix_def)
qed

lemma send_records_eq:
  "send_records w batch =
     (confirmed_prefix w batch,
      w\<lparr>posted := posted w
           @ map to_dict (takeWhile (\<lambda>record. json_serialisable (to_dict record))
                            (take (Suc (confirmed_prefix w batch)) batch))\<rparr>)"
proof (induction batch arbitrary: w)
  case Nil
  then show ?case by (simp add: confirmed_prefix_Nil)
next
  case (Cons r rest)
  show ?case
    by (simp add: confirmed_prefix_Cons send_to_gateway_def Cons.IH Let_def)
qed

lemma confirmed_prefix_le: "confirmed_prefix w batch \<le> length batch"
proof -
  have "confirmed_prefix w batch
          \<le> length (zip batch (map (post_answer w)
                        [length (posted w) ..< length (posted w) + length batch]))"
    unfolding confirmed_prefix_def by (rule length_takeWhile_le)
  then show ?thesis by simp
qed

lemma confirmed_prefix_file [simp]:
  "confirmed_prefix (w\<lparr>offline_file := f\<rparr>) batch = confirmed_prefix w batch"
  by (simp add: confirmed_prefix_def)

lemma confirmed_prefix_all:
  assumes "i < confirmed_prefix w batch"
  shows "json_serialisable (to_dict (batch ! i))
         \<and> gateway_verdict (post_answer w (length (posted w) + i))"
proof -
  let ?P = "\<lambda>(record, answer). json_serialisable (to_dict record) \<and> gateway_verdict answer"
  let ?xs = "zip batch (map (post_answer w)
                [length (posted w) ..< length (posted w) + length batch])"
  from assms have i: "i < length (takeWhile ?P ?xs)"
    by (simp add: confirmed_prefix_def)
  then have "takeWhile ?P ?xs ! i \<in> set (takeWhile ?P ?xs)"
    by (rule nth_mem)
  then have "?P (takeWhile ?P ?xs ! i)"
    by (rule set_takeWhileD [THEN conjunct2])
  moreover have "takeWhile ?P ?xs ! i = ?xs ! i"
    using i by (rule takeWhile_nth)
  moreover have "i < length batch"
    using assms confirmed_prefix_le [of w batch] by simp
  ultimately show ?thesis by simp
qed

lemma confirmed_prefix_stop:
  assumes "confirmed_prefix w batch < length batch"
  shows "\<not> (json_serialisable (to_dict (batch ! confirmed_prefix w batch))
         \<and> gateway_verdict (post_answer w (length (posted w) + confirmed_prefix w batch)))"
proof -
  let ?P = "\<lambda>(record, answer). json_serialisable (to_dict record) \<and> gateway_verdict answer"
  let ?xs = "zip batch (map (post_answer w)
                [length (posted w) ..< length (posted w) + length batch])"
  have k: "confirmed_prefix w batch = length (takeWhile ?P ?xs)"
    by (simp add: confirmed_prefix_def)
  with assms have "length (takeWhile ?P ?xs) < length ?xs" by simp
  then have "\<not> ?P (?xs ! length (takeWhile ?P ?xs))"
    by (rule nth_length_takeWhile)
  then show ?thesis
    using assms unfolding k [symmetric] by simp
qed

text \<open>
  Claim C3. When a drain runs (the gateway is believed reachable and the last drain is
  at least 900 seconds old), the batch is the oldest 20 entries of the queue. Its rows
  are handed to \<^verbatim>\<open>send_to_gateway\<close> one at a time in queue order, and the loop stops with
  the first send that fails, be it a row that cannot be serialised (nothing is POSTed
  for it) or a POST that is not accepted. With \<open>k\<close> the number of entries confirmed
  before the first failure (each of the first \<open>k\<close> entries can be serialised and its
  POST is accepted, and entry \<open>k + 1\<close>, when there is one, is refused or not accepted),
  the POSTs made are those of the first \<open>k\<close> entries, followed by that of entry \<open>k + 1\<close>
  when there is one and it can be serialised. Exactly the \<open>k\<close>
  oldest entries are removed from the queue, \<open>k\<close> being possibly 0, and the rest stays
  in its original order.
\<close>

theorem sync_stops_at_first_failure:
  "can_reach_gateway_pi (network c) \<and> \<not> current_time - last_sync_time c < 900 \<longrightarrow>
   (let q = load_all (offline_file w);
        batch = take 20 q;
        k = confirmed_prefix w batch;
        w' = snd (snd (sync_offline_data c w current_time))
    in k \<le> length batch
       \<and> (\<forall>i<k. json_serialisable (to_dict (batch ! i))
                  \<and> gateway_verdict (post_answer w (length (posted w) + i)))
       \<and> (k < length batch \<longrightarrow>
             \<not> (json_serialisable (to_dict (batch ! k))
                \<and> gateway_verdict (post_answer w (length (posted w) + k))))
       \<and> posted w' = posted w
           @ map to_dict (takeWhile (\<lambda>record. json_serialisable (to_dict record))
                            (take (Suc k) batch))
       \<and> load_all (offline_file w') = drop k q
       \<and> q = take k q @ load_all (offline_file w'))"
proof (intro impI, elim conjE)
  assume gates: "can_reach_gateway_pi (network c)" "\<not> current_time - last_sync_time c < 900"
  define q where "q = load_all (offline_file w)"
  define b where "b = take 20 q"
  define k where "k = confirmed_prefix w b"
  define sent where "sent = map to_dict (takeWhile (\<lambda>record. json_serialisable (to_dict record))
                            (take (Suc k) b))"
  have batch: "load_batch (offline_file w) 20 = (b, offline_file w)"
    by (simp add: load_batch_take q_def b_def)
  have same: "w\<lparr>offline_file := offline_file w\<rparr> = w" by simp
  have kle: "k \<le> length b"
    unfolding k_def by (rule confirmed_prefix_le)
  have empty: "sent = []" if "b = []"
    using that by (simp add: sent_def)
  have w': "snd (snd (sync_offline_data c w current_time))
              = (if b = [] then w
                 else if 0 < k
                   then w\<lparr>posted := posted w @ sent,
                          offline_file := snd (remove_synced (offline_file w) (int k))\<rparr>
                   else w\<lparr>posted := posted w @ sent\<rparr>)"
    using gates
    by (simp add: sync_offline_data_def batch same send_records_eq k_def [symmetric]
        sent_def [symmetric] split_beta Let_def)
  have posted: "posted (snd (snd (sync_offline_data c w current_time))) = posted w @ sent"
    using empty by (simp add: w')
  have rest: "load_all (offline_file (snd (snd (sync_offline_data c w current_time)))) = drop k q"
  proof (cases "b = []")
    case True
    then have "q = []" unfolding b_def by (cases q) simp_all
    then show ?thesis using True by (simp add: w' q_def)
  next
    case False
    then show ?thesis by (simp add: w' load_all_remove_synced q_def)
  qed
  have confirmed: "\<forall>i<k. json_serialisable (to_dict (b ! i))
                  \<and> gateway_verdict (post_answer w (length (posted w) + i))"
    unfolding k_def using confirmed_prefix_all by blast
  have stopped: "k < length b \<longrightarrow>
             \<not> (json_serialisable (to_dict (b ! k))
                \<and> gateway_verdict (post_answer w (length (posted w) + k)))"
    unfolding k_def using confirmed_prefix_stop by blast
  have "k \<le> length b
           \<and> (\<forall>i<k. json_serialisable (to_dict (b ! i))
                  \<and> gateway_verdict (post_answer w (length (posted w) + i)))
           \<and> (k < length b \<longrightarrow>
                 \<not> (json_serialisable (to_dict (b ! k))
                    \<and> gateway_verdict (post_answer w (length (posted w) + k))))
           \<and> posted (snd (snd (sync_offline_data c w current_time))) = posted w @ sent
           \<and> load_all (offline_file (snd (snd (sync_offline_data c w current_time)))) = drop k q
           \<and> q = take k q @ load_all (offline_file (snd (snd (sync_offline_data c w current_time))))"
    using kle posted rest confirmed stopped by simp
  then show "let q = load_all (offline_file w);
            batch = take 20 q;
            k = confirmed_prefix w batch;
            w' = snd (snd (sync_offline_data c w current_time))
        in k \<le> length batch
           \<and> (\<forall>i<k. json_serialisable (to_dict (batch ! i))
                      \<and> gateway_verdict (post_answer w (length (posted w) + i)))
           \<and> (k < length batch \<longrightarrow>
                 \<not> (json_serialisable (to_dict (batch ! k))
                    \<and> gateway_verdict (post_answer w (length (posted w) + k))))
           \<and> posted w' = posted w
               @ map to_dict (takeWhile (\<lambda>record. json_serialisable (to_dict record))
                                (take (Suc k) batch))
           \<and> load_all (offline_file w') = drop k q
           \<and> q = take k q @ load_all (offline_file w')"
    unfolding Let_def sent_def k_def b_def q_def .
qed


lemma assigned_reading_sendable: "json_serialisable (to_dict (assigned_reading ''a''))"
  "json_serialisable (to_dict (assigned_reading ''b''))"
  "json_serialisable (to_dict (assigned_reading ''c''))"
  by (simp_all add: json_serialisable_def to_dict_def row_has_nan_def reads_as_nan_def
      cell_is_nan_def NA_VALUES_def assigned_reading_def sample_reading_def)

lemma sample_reading_refused: "\<not> json_serialisable (to_dict (sample_reading t))"
  by (simp add: json_serialisable_def to_dict_def row_has_nan_def cell_is_nan_def
      sample_reading_def)

theorem sync_stops_at_first_failure_witness:
  "can_reach_gateway_pi (network sample_controller)
   \<and> \<not> 1000 - last_sync_time sample_controller < 900
   \<and> posted (snd (snd (sync_offline_data sample_controller
         (sample_world
            (Some [assigned_reading ''a'', assigned_reading ''b'', assigned_reading ''c''])
            (\<lambda>n. if n = 0 then Response 202 None else Timeout)) 1000)))
       = [to_dict (assigned_reading ''a''), to_dict (assigned_reading ''b'')]
   \<and> load_all (offline_file (snd (snd (sync_offline_data sample_controller
         (sample_world
            (Some [assigned_reading ''a'', assigned_reading ''b'', assigned_reading ''c''])
            (\<lambda>n. if n = 0 then Response 202 None else Timeout)) 1000))))
       = [assigned_reading ''b'', assigned_reading ''c'']
   \<and> posted (snd (snd (sync_offline_data sample_controller
         (sample_world
            (Some [assigned_reading ''a'', sample_reading ''b'', assigned_reading ''c''])
            (\<lambda>n. Response 200 (Some JsonObject))) 1000)))
       = [to_dict (assigned_reading ''a'')]
   \<and> load_all (offline_file (snd (snd (sync_offline_data sample_controller
         (sample_world
            (Some [assigned_reading ''a'', sample_reading ''b'', assigned_reading ''c''])
            (\<lambda>n. Response 200 (Some JsonObject))) 1000))))
       = [sample_reading ''b'', assigned_reading ''c'']"
proof -
  let ?w1 = "sample_world
      (Some [assigned_reading ''a'', assigned_reading ''b'', assigned_reading ''c''])
      (\<lambda>n. if n = 0 then Response 202 None else Timeout)"
  let ?w2 = "sample_world
      (Some [assigned_reading ''a'', sample_reading ''b'', assigned_reading ''c''])
      (\<lambda>n. Response 200 (Some JsonObject))"
  have gates: "can_reach_gateway_pi (network sample_controller)"
    "\<not> 1000 - last_sync_time sample_controller < 900"
    by (simp_all add: sample_controller_def can_reach_gateway_pi_def)
  have q1: "load_all (offline_file ?w1)
      = [assigned_reading ''a'', assigned_reading ''b'', assigned_reading ''c'']"
    and q2: "load_all (offline_file ?w2)
      = [assigned_reading ''a'', sample_reading ''b'', assigned_reading ''c'']"
    and p: "posted ?w1 = []" "posted ?w2 = []"
    by (simp_all add: sample_world_def load_all_def)
  have k1: "confirmed_prefix ?w1
      [assigned_reading ''a'', assigned_reading ''b'', assigned_reading ''c''] = 1"
    by (simp add: confirmed_prefix_Cons assigned_reading_sendable gateway_verdict_def
        sample_world_def)
  have k2: "confirmed_prefix ?w2
      [assigned_reading ''a'', sample_reading ''b'', assigned_reading ''c''] = 1"
    by (simp add: confirmed_prefix_Cons assigned_reading_sendable sample_reading_refused
        gateway_verdict_def sample_world_def)
  show ?thesis
    using sync_stops_at_first_failure [of sample_controller 1000 ?w1]
      sync_stops_at_first_failure [of sample_controller 1000 ?w2]
    by (simp add: gates q1 q2 p k1 k2 Let_def assigned_reading_sendable sample_reading_refused)
qed

lemma load_all_save_sequence_any:
  assumes cap: "0 < max_records l" and start: "ds \<noteq> [] \<or> length (load_all f) \<le> max_records l"
  shows "load_all (save_sequence l f ds)
     = drop (length (load_all f @ ds) - max_records l) (load_all f @ ds)"
proof (cases ds)
  case Nil
  with start cap show ?thesis by (simp add: save_sequence_def)
next
  case (Cons d rest)
  let ?f = "snd (offline_save l f d)"
  have rows: "load_all ?f = drop (length (load_all f) + 1 - max_records l) (load_all f @ [d])"
    using cap by (rule load_all_offline_save)
  then have len: "length (load_all ?f) \<le> max_records l"
    using cap by simp
  have "load_all (save_sequence l f ds) = load_all (save_sequence l ?f rest)"
    by (simp add: save_sequence_def Cons)
  also have "\<dots> = drop (length (load_all ?f @ rest) - max_records l) (load_all ?f @ rest)"
    using cap len by (rule load_all_save_sequence)
  also have "\<dots> = drop (length (load_all f @ ds) - max_records l) (load_all f @ ds)"
  proof (cases "length (load_all f) < max_records l")
    case True
    then show ?thesis by (simp add: rows Cons)
  next
    case False
    then have "load_all ?f @ rest
        = drop (length (load_all f) + 1 - max_records l) (load_all f @ d # rest)"
      using cap by (simp add: rows)
    moreover have "length (load_all ?f @ rest) - max_records l + (length (load_all f) + 1 - max_records l)
        = length (load_all f @ ds) - max_records l"
      using False cap by (simp add: rows Cons)
    ultimately show ?thesis
      by (simp only: drop_drop Cons)
  qed
  finally show ?thesis .
qed

text \<open>
  Claim C4. The configured capacity is positive. For a positive capacity, after any
  sequence of enqueue operations (on a queue within capacity, or on any queue when the
  sequence is not empty) the queue is within capacity, and holds the newest entries of
  the old contents followed by the new readings. One enqueue discards a prefix of the
  old contents followed by the new reading, that is the oldest entries only, and the
  new reading is always the last entry kept.
\<close>

theorem offline_queue_bounded_drops_oldest:
  "0 < max_records OfflineLogger_init
   \<and> (0 < max_records l \<longrightarrow>
        (ds \<noteq> [] \<or> total_records f \<le> max_records l \<longrightarrow>
           total_records (save_sequence l f ds) \<le> max_records l
           \<and> load_all (save_sequence l f ds)
               = drop (length (load_all f @ ds) - max_records l) (load_all f @ ds))
        \<and> load_all f @ [d]
            = take (length (load_all f) + 1 - max_records l) (load_all f @ [d])
              @ load_all (snd (offline_save l f d))
        \<and> last (load_all (snd (offline_save l f d))) = d)"
proof (intro conjI impI)
  show "0 < max_records OfflineLogger_init"
    by (simp add: OfflineLogger_init_def MAX_OFFLINE_RECORDS_def)
next
  assume cap: "0 < max_records l" and "ds \<noteq> [] \<or> total_records f \<le> max_records l"
  then have eq: "load_all (save_sequence l f ds)
      = drop (length (load_all f @ ds) - max_records l) (load_all f @ ds)"
    by (simp add: load_all_save_sequence_any total_records_load_all)
  show "load_all (save_sequence l f ds)
      = drop (length (load_all f @ ds) - max_records l) (load_all f @ ds)"
    by (rule eq)
  show "total_records (save_sequence l f ds) \<le> max_records l"
    unfolding total_records_load_all eq by simp
next
  assume cap: "0 < max_records l"
  show "load_all f @ [d]
            = take (length (load_all f) + 1 - max_records l) (load_all f @ [d])
              @ load_all (snd (offline_save l f d))"
    by (simp only: load_all_offline_save [OF cap] append_take_drop_id)
  show "last (load_all (snd (offline_save l f d))) = d"
    using cap by (simp add: load_all_offline_save)
qed

theorem offline_queue_bounded_drops_oldest_witness:
  "0 < max_records \<lparr>max_records = 2\<rparr>
   \<and> total_records (Some [1, 2 :: nat]) \<le> max_records \<lparr>max_records = 2\<rparr>
   \<and> load_all (save_sequence \<lparr>max_records = 2\<rparr> (Some [1, 2 :: nat]) [3, 4]) = [3, 4]
   \<and> total_records (save_sequence \<lparr>max_records = 2\<rparr> (Some [1, 2 :: nat]) [3, 4]) \<le> 2
   \<and> load_all (snd (offline_save \<lparr>max_records = 2\<rparr> (Some [1, 2 :: nat]) 3)) = [2, 3]"
  using offline_queue_bounded_drops_oldest [of "\<lparr>max_records = 2\<rparr>" "[3, 4]" "Some [1, 2 :: nat]" 3]
  by (simp add: total_records_def load_all_def)

lemma load_all_save_sequence_fresh:
  "0 < max_records l \<Longrightarrow>
   load_all (save_sequence l None ds) = drop (length ds - max_records l) ds"
  using load_all_save_sequence [of l None ds] by (simp add: load_all_def)

text \<open>
  Claim C7. For every state of the queue and every batch size \<open>n \<ge> 0\<close>,
  \<^verbatim>\<open>load_batch\<close> returns the first \<open>n\<close> entries of the queue (all of them when there
  are fewer), oldest first, and leaves the file as it is; on an empty queue it returns
  nothing. Being a function of the file and \<open>n\<close>, it returns the same on the same
  state. After a sequence of enqueues on a fresh queue the batch is the oldest \<open>n\<close> of
  the surviving entries, in the order they were enqueued.
\<close>

theorem load_batch_oldest_first:
  "0 \<le> n \<longrightarrow>
     fst (load_batch f n) = take (nat n) (load_all f)
     \<and> length (fst (load_batch f n)) \<le> nat n
     \<and> snd (load_batch f n) = f
     \<and> (load_all f = [] \<longrightarrow> fst (load_batch f n) = [])
     \<and> (0 < max_records l \<longrightarrow>
          fst (load_batch (save_sequence l None ds) n)
            = take (nat n) (drop (length ds - max_records l) (ds :: 'a list)))"
  for f :: "'a storage"
  by (simp add: load_batch_take load_all_save_sequence_fresh)

theorem load_batch_oldest_first_witness:
  "(0::int) \<le> 2 \<and> load_all (Some [5, 6, 7 :: nat]) \<noteq> []
   \<and> 0 < max_records \<lparr>max_records = 2\<rparr>
   \<and> load_batch (Some [5, 6, 7 :: nat]) 2 = ([5, 6], Some [5, 6, 7])
   \<and> fst (load_batch (save_sequence \<lparr>max_records = 2\<rparr> None [5, 6, 7 :: nat]) 1) = [6]"
  using load_batch_oldest_first [of 2 "Some [5, 6, 7 :: nat]" "\<lparr>max_records = 2\<rparr>" "[5, 6, 7]"]
    load_batch_oldest_first [of 1 "Some [5, 6, 7 :: nat]" "\<lparr>max_records = 2\<rparr>" "[5, 6, 7]"]
  by (simp add: load_all_def prod_eq_iff)

section \<open>Frame validation\<close>

lemma serial_read_length:
  "serial_read line n = Some (bs, line') \<Longrightarrow> length bs \<le> n"
  by (auto simp add: serial_read_def split: list.splits option.splits)

lemma exchange_received:
  "received_frame c line = Some frame \<Longrightarrow>
   exchange c line =
     (if length frame \<noteq> RESPONSE_LENGTH then Inl LengthMismatch else crc_check frame)"
  by (auto simp add: received_frame_def exchange_def complete_response_def Let_def
      split: option.splits prod.splits if_splits dest: serial_read_length)

lemma exchange_not_received:
  "received_frame c line = None \<Longrightarrow> exchange c line = Inl SerialException"
  by (auto simp add: received_frame_def exchange_def complete_response_def Let_def
      split: option.splits prod.splits if_splits dest: serial_read_length)

lemma crc_check_eq:
  "crc_check frame =
     (if crc16_modbus (slice_but_last 2 frame) = Some (slice_last 2 frame) then Inr frame
      else Inl ChecksumMismatch)"
  by (auto simp add: crc_check_def Let_def crc16_modbus_refines)

lemma try_read_Some:
  "fst (try_read s c line now) \<noteq> None \<longleftrightarrow> (\<exists>r. exchange c line = Inr r)"
  by (auto simp add: try_read_def split: sum.splits read_error.splits)


lemma read_sensor_data_Some:
  "fst (read_sensor_data s clock gw db line now) \<noteq> None \<Longrightarrow>
   \<exists>s' c. fst (read_sensor_data s clock gw db line now) = fst (try_read s' c line now)"
  by (auto simp add: read_sensor_data_def Let_def split: prod.splits if_splits option.splits)

text \<open>
  Claim C2. For the frame received in an exchange (after at most one supplementary
  read), the exchange yields a reading if and only if the frame has length
  \<open>RESPONSE_LENGTH\<close> and its last two bytes equal the checksum of the bytes before them.
  A frame of another length is rejected as a length mismatch, a frame of the right
  length with another trailer as a checksum mismatch; a rejected frame yields no
  reading, an accepted one the reading parsed from exactly that frame. When no frame is
  received there is no reading, and whenever \<^verbatim>\<open>read_sensor_data\<close> returns a reading a
  valid frame was received.
\<close>

theorem frame_accepted_iff_valid:
  "(received_frame c line = Some frame \<longrightarrow>
      (fst (try_read s c line now) \<noteq> None \<longleftrightarrow> valid_frame frame)
      \<and> (length frame \<noteq> RESPONSE_LENGTH \<longrightarrow> exchange c line = Inl LengthMismatch)
      \<and> (length frame = RESPONSE_LENGTH
           \<and> crc16_modbus (slice_but_last 2 frame) \<noteq> Some (slice_last 2 frame) \<longrightarrow>
             exchange c line = Inl ChecksumMismatch)
      \<and> (valid_frame frame \<longrightarrow>
             fst (try_read s c line now) = Some (parse_sensor_data s now frame)))
   \<and> (received_frame c line = None \<longrightarrow> fst (try_read s c line now) = None)
   \<and> (fst (read_sensor_data s clock gw db line now) \<noteq> None \<longrightarrow>
        (\<exists>c' frame'. received_frame c' line = Some frame' \<and> valid_frame frame'))"
proof (intro conjI impI)
  assume r: "received_frame c line = Some frame"
  note ex = exchange_received [OF r] crc_check_eq
  show "fst (try_read s c line now) \<noteq> None \<longleftrightarrow> valid_frame frame"
    unfolding try_read_Some by (simp add: ex valid_frame_def)
  show "exchange c line = Inl LengthMismatch" if "length frame \<noteq> RESPONSE_LENGTH"
    using that by (simp add: ex)
  show "exchange c line = Inl ChecksumMismatch"
    if "length frame = RESPONSE_LENGTH
        \<and> crc16_modbus (slice_but_last 2 frame) \<noteq> Some (slice_last 2 frame)"
    using that by (simp add: ex)
  show "fst (try_read s c line now) = Some (parse_sensor_data s now frame)"
    if "valid_frame frame"
    using that by (simp add: try_read_def ex valid_frame_def)
next
  assume "received_frame c line = None"
  then show "fst (try_read s c line now) = None"
    by (simp add: try_read_def exchange_not_received)
next
  assume some: "fst (read_sensor_data s clock gw db line now) \<noteq> None"
  then obtain s' c' where "fst (try_read s' c' line now) \<noteq> None"
    using read_sensor_data_Some [OF some] by metis
  then obtain r where r: "exchange c' line = Inr r"
    unfolding try_read_Some by blast
  show "\<exists>c' frame'. received_frame c' line = Some frame' \<and> valid_frame frame'"
  proof (cases "received_frame c' line")
    case None
    with r show ?thesis by (simp add: exchange_not_received)
  next
    case (Some frame')
    with r have "valid_frame frame'"
      by (simp add: exchange_received crc_check_eq valid_frame_def split: if_splits)
    with Some show ?thesis by blast
  qed
qed

lemma sample_frame_crc:
  "crc16_modbus (slice_but_last 2 sample_frame) = Some (slice_last 2 sample_frame)"
  unfolding sample_frame_def slice_but_last_def slice_last_def by code_simp

lemma sample_frame_valid: "valid_frame sample_frame"
  using sample_frame_crc by (simp add: valid_frame_def sample_frame_def RESPONSE_LENGTH_def)

lemma sample_line_received: "received_frame (Conn True) sample_line = Some sample_frame"
  by (simp add: received_frame_def serial_write_def serial_read_def sample_line_def
      sample_frame_def RESPONSE_LENGTH_def)

theorem frame_accepted_iff_valid_witness:
  "received_frame (Conn True) sample_line = Some sample_frame
   \<and> valid_frame sample_frame
   \<and> fst (try_read sample_sensor (Conn True) sample_line ''2024-01-01 00:00:00'')
       = Some (parse_sensor_data sample_sensor ''2024-01-01 00:00:00'' sample_frame)
   \<and> received_frame (Conn False) sample_line = None
   \<and> fst (try_read sample_sensor (Conn False) sample_line ''2024-01-01 00:00:00'') = None"
  using frame_accepted_iff_valid [of "Conn True" sample_line sample_frame sample_sensor
      "''2024-01-01 00:00:00''"]
    frame_accepted_iff_valid [of "Conn False" sample_line sample_frame sample_sensor
      "''2024-01-01 00:00:00''"]
    sample_line_received sample_frame_valid
  by (simp add: received_frame_def serial_write_def)

section \<open>Decoding\<close>

lemma slice_pair:
  "i + 2 \<le> length xs \<Longrightarrow> slice_between i (i + 2) xs = [xs ! i, xs ! Suc i]"
proof -
  assume len: "i + 2 \<le> length xs"
  then have "drop i xs = xs ! i # xs ! Suc i # drop (Suc (Suc i)) xs"
    by (simp add: Cons_nth_drop_Suc)
  then show ?thesis by (simp add: slice_between_def)
qed

lemma field_value:
  "i + 2 \<le> length xs \<Longrightarrow>
   from_bytes_big (slice_between i (i + 2) xs) = 256 * uint (xs ! i) + uint (xs ! Suc i)"
  by (simp only: slice_pair from_bytes_big_def) simp

text \<open>
  Claim C6. The measurements of a reading are a function of the frame alone: for a
  frame of \<open>RESPONSE_LENGTH\<close> bytes each is the big-endian unsigned 16-bit value of two
  bytes, divided by 10, with moisture at offset 3, temperature at 5, conductivity at 7,
  pH at 9, nitrogen at 11, phosphorus at 13 and potassium at 15. Bytes 01 F4 at offsets
  3 and 4 decode to moisture 50, bytes 00 FA at offsets 5 and 6 to temperature 25.
\<close>

theorem parse_sensor_data_fields:
  "(length response = RESPONSE_LENGTH \<longrightarrow>
      (let rd = parse_sensor_data s now response;
           field = (\<lambda>i. real_of_int (256 * uint (response ! i) + uint (response ! Suc i)) / 10)
       in moisture rd = field 3
          \<and> temperature rd = field 5
          \<and> conductivity rd = field 7
          \<and> ph rd = field 9
          \<and> nitrogen rd = field 11
          \<and> phosphorus rd = field 13
          \<and> potassium rd = field 15))
   \<and> (slice_between 3 5 response = [0x01, 0xF4] \<longrightarrow> moisture (parse_sensor_data s now response) = 50)
   \<and> (slice_between 5 7 response = [0x00, 0xFA] \<longrightarrow> temperature (parse_sensor_data s now response) = 25)"
proof (intro conjI impI)
  assume len: "length response = RESPONSE_LENGTH"
  have f: "from_bytes_big (slice_between i (i + 2) response)
             = 256 * uint (response ! i) + uint (response ! Suc i)" if "i \<le> 17" for i
    using that len by (intro field_value) (simp add: RESPONSE_LENGTH_def)
  show "let rd = parse_sensor_data s now response;
            field = (\<lambda>i. real_of_int (256 * uint (response ! i) + uint (response ! Suc i)) / 10)
        in moisture rd = field 3
           \<and> temperature rd = field 5
           \<and> conductivity rd = field 7
           \<and> ph rd = field 9
           \<and> nitrogen rd = field 11
           \<and> phosphorus rd = field 13
           \<and> potassium rd = field 15"
    using f [of 3] f [of 5] f [of 7] f [of 9] f [of 11] f [of 13] f [of 15]
    by (simp add: parse_sensor_data_def Let_def)
next
  assume "slice_between 3 5 response = [0x01, 0xF4]"
  then show "moisture (parse_sensor_data s now response) = 50"
    by (simp add: parse_sensor_data_def from_bytes_big_def)
next
  assume "slice_between 5 7 response = [0x00, 0xFA]"
  then show "temperature (parse_sensor_data s now response) = 25"
    by (simp add: parse_sensor_data_def from_bytes_big_def)
qed

theorem parse_sensor_data_fields_witness:
  "length sample_frame = RESPONSE_LENGTH
   \<and> slice_between 3 5 sample_frame = [0x01, 0xF4]
   \<and> slice_between 5 7 sample_frame = [0x00, 0xFA]
   \<and> moisture (parse_sensor_data sample_sensor ''t'' sample_frame) = 50
   \<and> temperature (parse_sensor_data sample_sensor ''t'' sample_frame) = 25
   \<and> conductivity (parse_sensor_data sample_sensor ''t'' sample_frame) = 10
   \<and> ph (parse_sensor_data sample_sensor ''t'' sample_frame) = 7
   \<and> nitrogen (parse_sensor_data sample_sensor ''t'' sample_frame) = 1
   \<and> phosphorus (parse_sensor_data sample_sensor ''t'' sample_frame) = 2
   \<and> potassium (parse_sensor_data sample_sensor ''t'' sample_frame) = 3"
proof -
  have len: "length sample_frame = RESPONSE_LENGTH"
    by (simp add: sample_frame_def RESPONSE_LENGTH_def)
  have a: "slice_between 3 5 sample_frame = [0x01, 0xF4]" and b: "slice_between 5 7 sample_frame = [0x00, 0xFA]"
    by (simp_all add: sample_frame_def slice_between_def)
  show ?thesis
    using parse_sensor_data_fields [of sample_frame sample_sensor "''t''"] len a b
    by (simp add: Let_def sample_frame_def)
qed

section \<open>Assignment checks\<close>







lemma check_assignment_db_result:
  "fst (check_assignment_db s t db) = is_assigned (snd (check_assignment_db s t db))"
  by (simp add: check_assignment_db_def Let_def split: http_result.splits option.splits)

lemma check_assignment_status_result:
  "fst (check_assignment_status s force t gw db)
     = is_assigned (snd (check_assignment_status s force t gw db))"
  by (simp add: check_assignment_status_def check_assignment_db_result Let_def
      split: http_result.splits option.splits)

lemma initialize_serial_assigned:
  "is_assigned (snd (initialize_serial s line)) = is_assigned s"
  by (simp add: initialize_serial_def split_beta)

lemma try_read_assigned: "is_assigned (snd (try_read s c line now)) = is_assigned s"
  by (simp add: try_read_def split: sum.splits read_error.splits)

lemma read_sensor_data_assigned:
  "fst (read_sensor_data s clock gw db line now) \<noteq> None \<Longrightarrow>
   is_assigned (snd (read_sensor_data s clock gw db line now))"
  using check_assignment_status_result [of s False clock gw db]
  by (auto simp add: read_sensor_data_def Let_def split_beta initialize_serial_assigned
      try_read_assigned split: if_splits option.splits)

lemma sync_offline_data_running:
  "running (fst (snd (sync_offline_data c w t))) = running c"
  by (simp add: sync_offline_data_def Let_def split_beta)

lemma deliver_running: "running (fst (deliver c w conn data t)) = running c"
  by (simp add: deliver_def Let_def split_beta sync_offline_data_running)

text \<open>
  Claim C10. Whenever \<^verbatim>\<open>read_sensor_data\<close> returns a reading, the assignment flag of
  the reader is set when it returns. Consequently a cycle of the controller never
  clears \<^verbatim>\<open>running\<close>: the branch that stops the loop on an unassigned sensor after a
  successful collection is never taken.
\<close>

theorem reading_implies_assigned:
  "(fst (read_sensor_data s clock gw db line now) \<noteq> None \<longrightarrow>
      is_assigned (snd (read_sensor_data s clock gw db line now)))
   \<and> running (fst (collect_and_process_data c w i)) = running c"
proof
  show "fst (read_sensor_data s clock gw db line now) \<noteq> None \<longrightarrow>
      is_assigned (snd (read_sensor_data s clock gw db line now))"
    by (simp add: read_sensor_data_assigned)
  let ?i = "read_sensor_data
      (sensor (c\<lparr>network := fst (snd (check_all_connectivity (network c) False (connectivity_time i) w))\<rparr>))
      (assignment_time i) (gw_assignment i) (db_assignment i) (wire i) (reading_time i)"
  show "running (fst (collect_and_process_data c w i)) = running c"
    using read_sensor_data_assigned [of "sensor c" "assignment_time i" "gw_assignment i"
        "db_assignment i" "wire i" "reading_time i"]
    by (auto simp add: collect_and_process_data_def Let_def split_beta deliver_running
        split: option.splits)
qed

lemma sample_exchange: "exchange (Conn True) sample_line = Inr sample_frame"
  using sample_frame_valid
  by (simp add: exchange_received [OF sample_line_received] crc_check_eq valid_frame_def)

lemma sample_read:
  "read_sensor_data sample_sensor 5 Timeout Timeout sample_line now
     = (Some (parse_sensor_data sample_sensor now sample_frame), sample_sensor)"
proof -
  have "check_assignment_status sample_sensor False 5 Timeout Timeout = (True, sample_sensor)"
    by (simp add: check_assignment_status_def sample_sensor_def ASSIGNMENT_CHECK_INTERVAL_def)
  moreover have "serial_conn sample_sensor = Some (Conn True)"
    by (simp add: sample_sensor_def)
  ultimately show ?thesis
    by (simp add: read_sensor_data_def try_read_def sample_exchange)
qed

theorem reading_implies_assigned_witness:
  "fst (read_sensor_data sample_sensor 5 Timeout Timeout sample_line ''t'') \<noteq> None
   \<and> is_assigned (snd (read_sensor_data sample_sensor 5 Timeout Timeout sample_line ''t''))"
  using reading_implies_assigned [of sample_sensor 5 Timeout Timeout sample_line "''t''"]
  by (simp add: sample_read)

section \<open>Connectivity cache\<close>




lemma check_all_connectivity_cached:
  "\<not> force \<Longrightarrow> t - last_internet_check nm < 300 \<Longrightarrow>
   check_all_connectivity nm force t w = (connectivity_of nm, nm, w)"
  by (simp add: check_all_connectivity_def)





section \<open>Delivery of a reading\<close>

lemma deliver_rejected:
  assumes "gateway_pi conn" and "\<not> gateway_verdict (post_answer w (length (posted w)))"
  shows "deliver c w conn data t =
     (c, w\<lparr>posted := posted w @ [Fresh data],
            offline_file := snd (offline_save (offline c) (offline_file w) data)\<rparr>)"
  using assms
  by (simp add: deliver_def gateway_save_def send_to_gateway_def json_serialisable_def split_beta)

text \<open>
  Claim C5, as amended. When the gateway is believed reachable and the direct send is
  answered with status 403, \<^verbatim>\<open>send_to_gateway\<close> reports a failure as for any other
  failed send, and the controller stores the reading in the offline queue, where it is
  the newest entry: the reading is not dropped.
\<close>

theorem rejected_reading_is_stored:
  "gateway_pi conn \<and> post_answer w (length (posted w)) = Response 403 body \<longrightarrow>
     \<not> fst (send_to_gateway w (Fresh data))
     \<and> posted (snd (deliver c w conn data t)) = posted w @ [Fresh data]
     \<and> offline_file (snd (deliver c w conn data t))
         = snd (offline_save (offline c) (offline_file w) data)
     \<and> (0 < max_records (offline c) \<longrightarrow>
          last (load_all (offline_file (snd (deliver c w conn data t)))) = data
          \<and> load_all (offline_file (snd (deliver c w conn data t))) \<noteq> [])"
proof (intro impI, elim conjE)
  assume conn: "gateway_pi conn" and a: "post_answer w (length (posted w)) = Response 403 body"
  then have v: "\<not> gateway_verdict (post_answer w (length (posted w)))"
    by (simp add: gateway_verdict_def)
  note d = deliver_rejected [OF conn v]
  show "\<not> fst (send_to_gateway w (Fresh data))
     \<and> posted (snd (deliver c w conn data t)) = posted w @ [Fresh data]
     \<and> offline_file (snd (deliver c w conn data t))
         = snd (offline_save (offline c) (offline_file w) data)
     \<and> (0 < max_records (offline c) \<longrightarrow>
          last (load_all (offline_file (snd (deliver c w conn data t)))) = data
          \<and> load_all (offline_file (snd (deliver c w conn data t))) \<noteq> [])"
    using v by (simp add: d send_to_gateway_def json_serialisable_def load_all_offline_save)
qed

text \<open>
  Claim C5 as stated fails: in a cycle whose direct send is answered with status 403,
  the queue, empty before, holds the reading afterwards.
\<close>

theorem rejected_reading_is_dropped_counterexample:
  "post_answer rejecting_world (length (posted rejecting_world)) = Response 403 None
   \<and> load_all (offline_file rejecting_world) = []
   \<and> load_all (offline_file (snd (collect_and_process_data sample_controller rejecting_world
                                     sample_input)))
       = [parse_sensor_data sample_sensor ''2024-01-01 00:00:00'' sample_frame]"
proof -
  have conn: "check_all_connectivity (network sample_controller) False 5 rejecting_world
      = (\<lparr>internet = True, db_pi = True, gateway_pi = True\<rparr>, network sample_controller,
         rejecting_world)"
    by (simp add: check_all_connectivity_cached sample_controller_def connectivity_of_def)
  have v: "\<not> gateway_verdict (post_answer rejecting_world (length (posted rejecting_world)))"
    by (simp add: rejecting_world_def sample_world_def gateway_verdict_def)
  have c_sensor: "sensor (sample_controller\<lparr>network := n\<rparr>) = sample_sensor" for n
    by (simp add: sample_controller_def)
  have assigned: "is_assigned sample_sensor"
    by (simp add: sample_sensor_def)
  have empty: "offline_file rejecting_world = None" "posted rejecting_world = []"
    by (simp_all add: rejecting_world_def sample_world_def)
  have answer: "post_answer rejecting_world 0 = Response 403 None"
    by (simp add: rejecting_world_def sample_world_def)
  show ?thesis
    using v
    by (simp add: collect_and_process_data_def conn sample_input_def c_sensor sample_read
        assigned deliver_rejected offline_save_def load_all_def empty answer)
qed

theorem rejected_reading_is_stored_witness:
  "gateway_pi \<lparr>internet = True, db_pi = True, gateway_pi = True\<rparr>
   \<and> post_answer rejecting_world (length (posted rejecting_world)) = Response 403 None
   \<and> 0 < max_records (offline sample_controller)
   \<and> load_all (offline_file (snd (deliver sample_controller rejecting_world
         \<lparr>internet = True, db_pi = True, gateway_pi = True\<rparr> (sample_reading ''a'') 1000)))
       = [sample_reading ''a'']"
  using rejected_reading_is_stored [of "\<lparr>internet = True, db_pi = True, gateway_pi = True\<rparr>"
      rejecting_world None "sample_reading ''a''" sample_controller 1000]
  by (simp add: rejecting_world_def sample_world_def sample_controller_def OfflineLogger_init_def
      MAX_OFFLINE_RECORDS_def offline_save_def load_all_def)

end
